theory Spec2Isabelle
  imports Main
begin

section \<open>The tabbed window of src/electron/addon/tabs/index.js\<close>

text \<open>
  The class \<open>TabbedWindow\<close> keeps an ordered array of tab ids (\<open>tabs\<close>), an object from
  id to tab configuration (\<open>defTabConfigs\<close>), an object from id to browser view (\<open>views\<close>)
  and the id of the current view (\<open>defCurrentViewId\<close>). Its methods mutate these fields and
  call the host (Electron) window, views, IPC channel and event emitter. The model threads
  the object through every method as a record; each call to the host is appended to the
  field \<open>trace\<close>, in the order the source performs it. A JavaScript exception is a result
  \<open>Inl\<close> carrying the object as the throw left it.
\<close>

subsection \<open>Data\<close>

type_synonym TabID = nat
  \<comment> \<open>@typedef {number} TabID: the BrowserView's id. The number 0 is falsy.\<close>

datatype jsval = JUndefined | JBool bool | JStr string

type_synonym Tab = "string \<rightharpoonup> jsval"
  \<comment> \<open>a tab configuration object: own property name to value\<close>

type_synonym Tabs = "TabID option \<rightharpoonup> Tab option"
  \<comment> \<open>the object tabConfigs. A property key is the string of the id; the key \<open>None\<close> is
      the property "null" (setTabConfig is called with this.currentViewId, which may be
      null). The value \<open>Some None\<close> is a property holding null, \<open>None\<close> a missing property.\<close>

record Bounds =
  bounds_height :: int
  bounds_width :: int
  bounds_x :: int
  bounds_y :: int

record View =
  view_id :: TabID             \<comment> \<open>view.id = view.webContents.id\<close>
  wc_URL :: string             \<comment> \<open>webContents.getURL()\<close>
  wc_canGoBack :: bool         \<comment> \<open>webContents.canGoBack()\<close>
  wc_canGoForward :: bool      \<comment> \<open>webContents.canGoForward()\<close>
  wc_isDestroyed :: bool       \<comment> \<open>webContents.isDestroyed()\<close>
  wc_MARKS :: bool             \<comment> \<open>webContents["__IS_INITIALIZED__"]\<close>
  wc_functions :: "string list"
    \<comment> \<open>the property names n of the web contents with typeof webContents[n] === "function"\<close>

record Options =
  blankPage :: "string option"
  blankTitle :: string
  controlHeight :: int
  startPage :: "string option"

record Window =
  win_isDestroyed :: bool      \<comment> \<open>win.isDestroyed()\<close>
  win_webContents :: nat       \<comment> \<open>the identity of win.webContents, the control surface\<close>
  win_contentWidth :: int      \<comment> \<open>win.getContentSize()[0]\<close>
  win_contentHeight :: int     \<comment> \<open>win.getContentSize()[1]\<close>

record IpcMainEvent =
  sender :: nat                \<comment> \<open>the identity of e.sender\<close>

datatype event =
    Ev_new_tab TabID "string option" "TabID option"
      \<comment> \<open>emit("new-tab", view, {openedURL: url, lastView}); views are named by their id\<close>
  | Ev_close_tab TabID         \<comment> \<open>emit("close-tab", id)\<close>
  | Ev_control_ready IpcMainEvent

datatype effect =
    Win_removeBrowserView TabID
  | Win_addBrowserView "TabID option"   \<comment> \<open>\<open>None\<close>: the argument was undefined or null\<close>
  | Win_send_fromMain TabID             \<comment> \<open>win.webContents.send('fromMain', {currentTabId})\<close>
  | Win_show
  | View_setBounds TabID Bounds
  | View_setAutoResize TabID
  | Ipc_reply_active_update TabID       \<comment> \<open>ipc.reply("active-update", id)\<close>
  | Ipc_reply_tabs_update Tabs "TabID list"
      \<comment> \<open>ipc.reply("tabs-update", {confs, tabs})\<close>
  | Wc_setWindowOpenHandler TabID
  | Wc_on TabID                         \<comment> \<open>the listeners loadURL registers on a web contents\<close>
  | Wc_loadURL TabID string
  | Wc_focus TabID
  | Wc_destroy TabID
  | Wc_call TabID string                \<comment> \<open>action.call(webContents)\<close>
  | Log_warn string
  | Emit event

datatype js_error = TypeError

record TabbedWindow =
  options :: Options
  defCurrentViewId :: "TabID option"    \<comment> \<open>\<open>None\<close> is null\<close>
  defTabConfigs :: Tabs
  ipc :: "IpcMainEvent option"
  tabs :: "TabID list"
  views :: "TabID \<rightharpoonup> View option"       \<comment> \<open>\<open>Some None\<close>: this.views[id] = null\<close>
  win :: Window
  trace :: "effect list"

type_synonym result = "(js_error \<times> TabbedWindow) + TabbedWindow"

definition state_of :: "result \<Rightarrow> TabbedWindow" where
  "state_of r = (case r of Inl (e, s) \<Rightarrow> s | Inr s \<Rightarrow> s)"

definition log :: "effect list \<Rightarrow> TabbedWindow \<Rightarrow> TabbedWindow" where
  "log es s = s\<lparr>trace := trace s @ es\<rparr>"

definition constructor :: "Options \<Rightarrow> Window \<Rightarrow> TabbedWindow" where
  "constructor opts w =
     \<lparr>options = opts, defCurrentViewId = None, defTabConfigs = Map.empty, ipc = None,
      tabs = [], views = Map.empty, win = w, trace = []\<rparr>"

subsection \<open>JavaScript array and truthiness helpers\<close>

definition truthy_id :: "TabID option \<Rightarrow> bool" where
  "truthy_id v = (case v of None \<Rightarrow> False | Some n \<Rightarrow> n \<noteq> 0)"

definition truthy_str :: "string option \<Rightarrow> bool" where
  "truthy_str u = (case u of None \<Rightarrow> False | Some t \<Rightarrow> t \<noteq> [])"

fun indexOf :: "'a list \<Rightarrow> 'a \<Rightarrow> int" where
  "indexOf [] a = -1"
| "indexOf (x # xs) a = (if x = a then 0 else (let i = indexOf xs a in if i < 0 then -1 else i + 1))"

definition at_index :: "'a list \<Rightarrow> int \<Rightarrow> 'a option" where
  \<comment> \<open>xs[i]: undefined outside 0 .. length - 1\<close>
  "at_index xs i = (if 0 \<le> i \<and> i < int (length xs) then Some (xs ! nat i) else None)"

definition splice_insert :: "int \<Rightarrow> 'a \<Rightarrow> 'a list \<Rightarrow> 'a list" where
  \<comment> \<open>xs.splice(start, 0, a) for 0 \<le> start; a start beyond the length is the length\<close>
  "splice_insert start a xs = take (nat start) xs @ [a] @ drop (nat start) xs"

subsection \<open>Getters and setters\<close>

definition view_at :: "TabbedWindow \<Rightarrow> TabID \<Rightarrow> View option" where
  \<comment> \<open>this.views[id] when it is a view; undefined and null are both \<open>None\<close>\<close>
  "view_at s i = (case views s i of Some (Some v) \<Rightarrow> Some v | _ \<Rightarrow> None)"

definition currentView :: "TabbedWindow \<Rightarrow> View option" where
  "currentView s =
     (if truthy_id (defCurrentViewId s) then view_at s (the (defCurrentViewId s)) else None)"

definition getControlBounds :: "TabbedWindow \<Rightarrow> Bounds" where
  "getControlBounds s =
     \<lparr>bounds_height = controlHeight (options s), bounds_width = win_contentWidth (win s),
      bounds_x = 0, bounds_y = 0\<rparr>"

definition setContentBounds :: "TabbedWindow \<Rightarrow> TabbedWindow" where
  "setContentBounds s =
     (let contentWidth = win_contentWidth (win s);
          contentHeight = win_contentHeight (win s);
          controlBounds = getControlBounds s
      in case currentView s of
           Some v \<Rightarrow>
             log [View_setBounds (view_id v)
                    \<lparr>bounds_height = contentHeight - bounds_height controlBounds,
                     bounds_width = contentWidth,
                     bounds_x = 0,
                     bounds_y = bounds_y controlBounds + bounds_height controlBounds\<rparr>] s
         | None \<Rightarrow> s)"

definition set_currentViewId :: "TabID \<Rightarrow> TabbedWindow \<Rightarrow> TabbedWindow" where
  "set_currentViewId i s =
     (let s1 = setContentBounds (s\<lparr>defCurrentViewId := Some i\<rparr>)
      in if ipc s1 \<noteq> None then log [Ipc_reply_active_update i] s1 else s1)"

definition set_tabConfigs :: "Tabs \<Rightarrow> TabbedWindow \<Rightarrow> TabbedWindow" where
  "set_tabConfigs v s =
     (let s1 = s\<lparr>defTabConfigs := v\<rparr>
      in if ipc s1 \<noteq> None then log [Ipc_reply_tabs_update v (tabs s1)] s1 else s1)"

subsection \<open>Methods\<close>

definition destroyView :: "TabID \<Rightarrow> TabbedWindow \<Rightarrow> TabbedWindow" where
  "destroyView viewId s =
     (case view_at s viewId of
        Some view \<Rightarrow>
          (let s1 = (if \<not> wc_isDestroyed view then log [Wc_destroy (view_id view)] s else s)
           in s1\<lparr>views := (views s1)(viewId \<mapsto> None)\<rparr>)
      | None \<Rightarrow> s)"

definition setCurrentView :: "TabID option \<Rightarrow> TabbedWindow \<Rightarrow> result" where
  \<comment> \<open>The last statement, this.currentWebContents.focus(), is a TypeError when the new
      current view is not a view: currentWebContents is then undefined.\<close>
  "setCurrentView viewId s =
     (if \<not> truthy_id viewId then Inr s
      else
        let i = the viewId;
            s1 = (case currentView s of
                    Some cv \<Rightarrow> log [Win_removeBrowserView (view_id cv)] s
                  | None \<Rightarrow> s);
            s2 = log [Win_addBrowserView (map_option view_id (view_at s1 i))] s1;
            s3 = set_currentViewId i s2;
            s4 = log [Win_send_fromMain i] s3
        in case currentView s4 of
             Some v \<Rightarrow> Inr (log [Wc_focus (view_id v)] s4)
           | None \<Rightarrow> Inl (TypeError, s4))"

definition setTabConfig :: "TabID option \<Rightarrow> Tab \<Rightarrow> TabbedWindow \<Rightarrow> TabbedWindow" where
  "setTabConfig viewId kv s =
     (let tab = (case defTabConfigs s viewId of Some (Some t) \<Rightarrow> t | _ \<Rightarrow> Map.empty);
          webContents = (case viewId of Some i \<Rightarrow> view_at s i | None \<Rightarrow> None);
          nav = [''canGoBack'' \<mapsto>
                   (case webContents of
                      Some v \<Rightarrow> JBool (wc_canGoBack v) | None \<Rightarrow> JUndefined),
                 ''canGoForward'' \<mapsto>
                   (case webContents of
                      Some v \<Rightarrow> JBool (wc_canGoForward v) | None \<Rightarrow> JUndefined)]
      in set_tabConfigs ((defTabConfigs s)(viewId \<mapsto> Some (tab ++ nav ++ kv))) s)"

definition loadURL :: "string option \<Rightarrow> TabbedWindow \<Rightarrow> TabbedWindow" where
  "loadURL url s =
     (case currentView s of
        None \<Rightarrow> s
      | Some cv \<Rightarrow>
          if \<not> truthy_str url then s
          else if wc_MARKS cv then log [Wc_loadURL (view_id cv) (the url)] s
          else
            let s1 = log [Wc_on (view_id cv), Wc_loadURL (view_id cv) (the url)] s;
                s2 = s1\<lparr>views := (views s1)(the (defCurrentViewId s1) \<mapsto>
                                    Some (cv\<lparr>wc_MARKS := True\<rparr>))\<rparr>
            in setContentBounds s2)"

definition newTab :: "string option \<Rightarrow> TabID option \<Rightarrow> View \<Rightarrow> TabbedWindow \<Rightarrow> result" where
  \<comment> \<open>The argument \<open>view\<close> is the view the host's constructor BrowserView returns, with
      the id the host gave its web contents.\<close>
  "newTab url appendTo view s =
     (let s1 = log [Wc_setWindowOpenHandler (view_id view)] s;
          s2 = (if truthy_id appendTo
                then let prevIndex = indexOf (tabs s1) (the appendTo)
                     in s1\<lparr>tabs := splice_insert (prevIndex + 1) (view_id view) (tabs s1)\<rparr>
                else s1\<lparr>tabs := tabs s1 @ [view_id view]\<rparr>);
          s3 = s2\<lparr>views := (views s2)(view_id view \<mapsto> Some view)\<rparr>;
          lastView = currentView s3
      in case setCurrentView (Some (view_id view)) s3 of
           Inl e \<Rightarrow> Inl e
         | Inr s4 \<Rightarrow>
             let s5 = log [View_setAutoResize (view_id view)] s4;
                 s6 = loadURL (if truthy_str url then url else blankPage (options s5)) s5;
                 s7 = setTabConfig (Some (view_id view))
                        [''title'' \<mapsto> JStr (blankTitle (options s6))] s6
             in Inr (log [Emit (Ev_new_tab (view_id view) url (map_option view_id lastView))] s7))"

definition switchTab :: "TabID \<Rightarrow> TabbedWindow \<Rightarrow> result" where
  "switchTab viewId s = setCurrentView (Some viewId) s"

subsection \<open>The channel listeners of setChannel\<close>

definition webContentsAct :: "string \<Rightarrow> TabbedWindow \<Rightarrow> TabbedWindow" where
  "webContentsAct actionName s =
     (case currentView s of
        None \<Rightarrow> log [Log_warn actionName] s
      | Some webContents \<Rightarrow>
          if actionName \<in> set (wc_functions webContents) then
            (if actionName = ''reload'' \<and> wc_URL webContents = '''' then s
             else log [Wc_call (view_id webContents) actionName] s)
          else log [Log_warn actionName] s)"

definition close_tab :: "TabID \<Rightarrow> TabbedWindow \<Rightarrow> result" where
  "close_tab i s =
     (case (if Some i = defCurrentViewId s
            then let removeIndex = indexOf (tabs s) i;
                     nextIndex = (if removeIndex = int (length (tabs s)) - 1
                                  then removeIndex - 1 else removeIndex + 1)
                 in setCurrentView (at_index (tabs s) nextIndex) s
            else Inr s) of
        Inl e \<Rightarrow> Inl e
      | Inr s1 \<Rightarrow>
          let s2 = s1\<lparr>tabs := filter (\<lambda>v. v \<noteq> i) (tabs s1)\<rparr>;
              s3 = set_tabConfigs ((defTabConfigs s2)(Some i \<mapsto> None)) s2;
              s4 = destroyView i s3
          in Inr (log [Emit (Ev_close_tab i)] s4))"

definition control_ready :: "IpcMainEvent \<Rightarrow> View \<Rightarrow> TabbedWindow \<Rightarrow> result" where
  "control_ready e view s =
     (let s1 = s\<lparr>ipc := Some e\<rparr>
      in case newTab (if truthy_str (startPage (options s1)) then startPage (options s1)
                      else Some '''') None view s1 of
           Inl err \<Rightarrow> Inl err
         | Inr s2 \<Rightarrow> Inr (log [Win_show, Emit (Ev_control_ready e)] s2))"

datatype command =
    Act string                       \<comment> \<open>"act", actName\<close>
  | Close_tab TabID                  \<comment> \<open>"close-tab", id\<close>
  | Control_ready                    \<comment> \<open>"control-ready"\<close>
  | New_tab "string option"          \<comment> \<open>"new-tab", url, references\<close>
  | Switch_tab TabID                 \<comment> \<open>"switch-tab", id\<close>
  | Url_change string                \<comment> \<open>"url-change", url\<close>

fun listener :: "View \<Rightarrow> IpcMainEvent \<Rightarrow> command \<Rightarrow> TabbedWindow \<Rightarrow> result" where
  \<comment> \<open>the object literal \<open>channels\<close>; \<open>view\<close> is what the host's BrowserView constructor
      returns should the listener create a tab\<close>
  "listener view e (Act actName) s = Inr (webContentsAct actName s)"
| "listener view e (Close_tab i) s = close_tab i s"
| "listener view e Control_ready s = control_ready e view s"
| "listener view e (New_tab url) s = newTab url None view s"
| "listener view e (Switch_tab i) s = switchTab i s"
| "listener view e (Url_change url) s =
     Inr (setTabConfig (defCurrentViewId s) [''url'' \<mapsto> JStr url] s)"

definition channel :: "View \<Rightarrow> IpcMainEvent \<Rightarrow> command \<Rightarrow> TabbedWindow \<Rightarrow> result" where
  \<comment> \<open>the wrapper ipcMain.on registers for every name. this.win is never null here: the
      constructor dereferences it (this.win.on("closed", ...)) before returning.\<close>
  "channel view e c s =
     (if \<not> win_isDestroyed (win s) \<and> sender e = win_webContents (win s)
      then listener view e c s
      else Inr s)"

subsection \<open>Sequences of openTab and closeTab\<close>

datatype op =
    OpenTab "string option" "TabID option" View   \<comment> \<open>newTab(url, appendTo) creating this view\<close>
  | CloseTab TabID                                 \<comment> \<open>the close-tab listener\<close>

fun apply_op :: "op \<Rightarrow> TabbedWindow \<Rightarrow> TabbedWindow" where
  \<comment> \<open>the object after the call, also when the call threw\<close>
  "apply_op (OpenTab url appendTo view) s = state_of (newTab url appendTo view s)"
| "apply_op (CloseTab i) s = state_of (close_tab i s)"

fun run :: "op list \<Rightarrow> TabbedWindow \<Rightarrow> TabbedWindow" where
  "run [] s = s"
| "run (x # ops) s = run ops (apply_op x s)"

fun host_ids_fresh :: "op list \<Rightarrow> TabbedWindow \<Rightarrow> bool" where
  \<comment> \<open>What the host guarantees of the views it creates: the id of a new view is a
      positive number that no earlier view of this window had. The object \<open>views\<close> keeps a
      property for every id it ever held.\<close>
  "host_ids_fresh [] s = True"
| "host_ids_fresh (OpenTab url appendTo view # ops) s =
     (view_id view \<noteq> 0 \<and> views s (view_id view) = None
      \<and> host_ids_fresh ops (apply_op (OpenTab url appendTo view) s))"
| "host_ids_fresh (CloseTab i # ops) s = host_ids_fresh ops (apply_op (CloseTab i) s)"

fun spec_open_ids :: "op list \<Rightarrow> TabID set \<Rightarrow> TabID set" where
  \<comment> \<open>Following the spec's words, not the code: the ids of the currently-open tabs after
      a sequence of openTab and closeTab calls that starts with the given tabs open.
      openTab opens the tab of the new surface, closeTab closes the tab it names.\<close>
  "spec_open_ids [] opened = opened"
| "spec_open_ids (OpenTab url appendTo view # ops) opened =
     spec_open_ids ops (insert (view_id view) opened)"
| "spec_open_ids (CloseTab i # ops) opened = spec_open_ids ops (opened - {i})"

subsection \<open>Notions used in the statements\<close>

definition content_bounds :: "TabbedWindow \<Rightarrow> Bounds" where
  \<comment> \<open>the bounds setContentBounds gives the current view\<close>
  "content_bounds s =
     \<lparr>bounds_height = win_contentHeight (win s) - controlHeight (options s),
      bounds_width = win_contentWidth (win s),
      bounds_x = 0,
      bounds_y = controlHeight (options s)\<rparr>"

definition relayout :: "TabbedWindow \<Rightarrow> effect list" where
  \<comment> \<open>the host calls of setContentBounds\<close>
  "relayout s =
     (case currentView s of
        Some v \<Rightarrow> [View_setBounds (view_id v) (content_bounds s)]
      | None \<Rightarrow> [])"

definition detach :: "TabbedWindow \<Rightarrow> effect list" where
  \<comment> \<open>if (this.currentView) this.win.removeBrowserView(this.currentView)\<close>
  "detach s =
     (case currentView s of
        Some cv \<Rightarrow> [Win_removeBrowserView (view_id cv)]
      | None \<Rightarrow> [])"

definition reply_active :: "TabbedWindow \<Rightarrow> TabID \<Rightarrow> effect list" where
  "reply_active s i = (if ipc s = None then [] else [Ipc_reply_active_update i])"

definition reply_tabs :: "TabbedWindow \<Rightarrow> Tabs \<Rightarrow> TabID list \<Rightarrow> effect list" where
  "reply_tabs s confs order = (if ipc s = None then [] else [Ipc_reply_tabs_update confs order])"

definition tab_of :: "TabbedWindow \<Rightarrow> TabID option \<Rightarrow> Tab" where
  \<comment> \<open>the own properties \<open>...tab\<close> spreads: none when the entry is missing or null\<close>
  "tab_of s k = (case defTabConfigs s k of Some (Some t) \<Rightarrow> t | _ \<Rightarrow> Map.empty)"

definition nav_flags :: "View option \<Rightarrow> Tab" where
  "nav_flags w =
     [''canGoBack'' \<mapsto> (case w of Some v \<Rightarrow> JBool (wc_canGoBack v) | None \<Rightarrow> JUndefined),
      ''canGoForward'' \<mapsto> (case w of Some v \<Rightarrow> JBool (wc_canGoForward v) | None \<Rightarrow> JUndefined)]"

definition registry_ok :: "TabbedWindow \<Rightarrow> bool" where
  \<comment> \<open>the order has no duplicates and no falsy id, and holds exactly the ids with a view
      and exactly the ids with a configuration that is not null\<close>
  "registry_ok s \<longleftrightarrow>
     distinct (tabs s) \<and> 0 \<notin> set (tabs s)
     \<and> set (tabs s) = {i. view_at s i \<noteq> None}
     \<and> set (tabs s) = {i. \<exists>t. defTabConfigs s (Some i) = Some (Some t)}"

subsection \<open>A concrete window\<close>

definition example_options :: Options where
  "example_options =
     \<lparr>blankPage = Some '''', blankTitle = ''New tab'', controlHeight = 40,
      startPage = Some ''http://x.test''\<rparr>"

definition example_window :: Window where
  "example_window =
     \<lparr>win_isDestroyed = False, win_webContents = 100,
      win_contentWidth = 800, win_contentHeight = 600\<rparr>"

definition example_view :: "TabID \<Rightarrow> View" where
  \<comment> \<open>a fresh view; its functions are members of the web contents that index.js itself
      calls (reload, focus, destroy, getURL, loadURL) or sends by name (stop, goBack,
      goForward)\<close>
  "example_view i =
     \<lparr>view_id = i, wc_URL = '''', wc_canGoBack = False, wc_canGoForward = False,
      wc_isDestroyed = False, wc_MARKS = False,
      wc_functions = [''reload'', ''stop'', ''goBack'', ''goForward'', ''focus'',
                      ''destroy'', ''getURL'', ''loadURL'']\<rparr>"

definition example_new :: TabbedWindow where
  "example_new = constructor example_options example_window"

definition example_ready :: TabbedWindow where
  \<comment> \<open>after the control panel's "control-ready": one tab, id 1, loading the start page\<close>
  "example_ready =
     state_of (control_ready \<lparr>sender = 100\<rparr> (example_view 1) example_new)"

definition example_two :: TabbedWindow where
  \<comment> \<open>then a second tab, id 2\<close>
  "example_two = state_of (newTab None None (example_view 2) example_ready)"

section \<open>How each method changes the object\<close>

lemma log_fields [simp]:
  "options (log es s) = options s"
  "defCurrentViewId (log es s) = defCurrentViewId s"
  "defTabConfigs (log es s) = defTabConfigs s"
  "ipc (log es s) = ipc s"
  "tabs (log es s) = tabs s"
  "views (log es s) = views s"
  "win (log es s) = win s"
  "trace (log es s) = trace s @ es"
  by (simp_all add: log_def)

lemma log_Nil [simp]: "log [] s = s"
  by (simp add: log_def)

lemma log_log [simp]: "log es (log ds s) = log (ds @ es) s"
  by (simp add: log_def)

lemma view_at_cong:
  assumes a: "views s' = views s"
  shows "view_at s' i = view_at s i"
  unfolding view_at_def a by (rule refl)

lemma currentView_cong:
  assumes a: "views s' = views s" and b: "defCurrentViewId s' = defCurrentViewId s"
  shows "currentView s' = currentView s"
  unfolding currentView_def view_at_def a b by (rule refl)

lemma view_at_log [simp]: "view_at (log es s) i = view_at s i"
  by (rule view_at_cong) simp

lemma currentView_log [simp]: "currentView (log es s) = currentView s"
  by (rule currentView_cong) simp_all

lemma content_bounds_log [simp]: "content_bounds (log es s) = content_bounds s"
  by (simp add: content_bounds_def)

lemma relayout_log [simp]: "relayout (log es s) = relayout s"
  by (simp add: relayout_def split: option.split)

lemma log_update [simp]:
  "(log es s)\<lparr>defCurrentViewId := c\<rparr> = log es (s\<lparr>defCurrentViewId := c\<rparr>)"
  "(log es s)\<lparr>defTabConfigs := f\<rparr> = log es (s\<lparr>defTabConfigs := f\<rparr>)"
  "(log es s)\<lparr>tabs := t\<rparr> = log es (s\<lparr>tabs := t\<rparr>)"
  "(log es s)\<lparr>views := w\<rparr> = log es (s\<lparr>views := w\<rparr>)"
  "(log es s)\<lparr>ipc := e\<rparr> = log es (s\<lparr>ipc := e\<rparr>)"
  by (simp_all add: log_def)

lemma setContentBounds_log: "setContentBounds s = log (relayout s) s"
  by (simp add: setContentBounds_def relayout_def content_bounds_def getControlBounds_def
      split: option.split)

lemma set_currentViewId_log:
  "set_currentViewId i s =
     log (relayout (s\<lparr>defCurrentViewId := Some i\<rparr>) @ reply_active s i)
         (s\<lparr>defCurrentViewId := Some i\<rparr>)"
  by (simp add: set_currentViewId_def setContentBounds_log reply_active_def Let_def)

lemma set_tabConfigs_log:
  "set_tabConfigs v s = log (reply_tabs s v (tabs s)) (s\<lparr>defTabConfigs := v\<rparr>)"
  by (simp add: set_tabConfigs_def reply_tabs_def Let_def)

lemma setTabConfig_log:
  "setTabConfig k kv s =
     set_tabConfigs ((defTabConfigs s)(k \<mapsto>
        Some (tab_of s k ++ nav_flags (case k of Some i \<Rightarrow> view_at s i | None \<Rightarrow> None) ++ kv))) s"
  by (simp add: setTabConfig_def tab_of_def nav_flags_def Let_def)

lemma currentView_live:
  "defCurrentViewId s = Some i \<Longrightarrow> i \<noteq> 0 \<Longrightarrow> views s i = Some (Some v) \<Longrightarrow> currentView s = Some v"
  by (simp add: currentView_def view_at_def truthy_id_def)

lemma setCurrentView_falsy:
  "\<not> truthy_id viewId \<Longrightarrow> setCurrentView viewId s = Inr s"
  by (simp add: setCurrentView_def)

lemma detach_log: "(case currentView s of Some cv \<Rightarrow> log [Win_removeBrowserView (view_id cv)] s | None \<Rightarrow> s) = log (detach s) s"
  by (simp add: detach_def split: option.split)

lemma setCurrentView_live:
  assumes "i \<noteq> 0" and "views s i = Some (Some v)"
  shows "setCurrentView (Some i) s =
     Inr (log (detach s
               @ [Win_addBrowserView (Some (view_id v)), View_setBounds (view_id v) (content_bounds s)]
               @ reply_active s i
               @ [Win_send_fromMain i, Wc_focus (view_id v)])
              (s\<lparr>defCurrentViewId := Some i\<rparr>))"
proof -
  have cv: "currentView (s\<lparr>defCurrentViewId := Some i\<rparr>) = Some v"
    using assms by (simp add: currentView_live)
  have va: "view_at s i = Some v"
    using assms by (simp add: view_at_def)
  have rl: "relayout (s\<lparr>defCurrentViewId := Some i\<rparr>) = [View_setBounds (view_id v) (content_bounds s)]"
    by (simp add: relayout_def cv content_bounds_def)
  show ?thesis
    unfolding setCurrentView_def Let_def detach_log
    using assms
    by (simp add: truthy_id_def set_currentViewId_log va rl cv reply_active_def)
qed


lemma setCurrentView_missing:
  assumes "i \<noteq> 0" and "view_at s i = None"
  shows "setCurrentView (Some i) s =
     Inl (TypeError,
          log (detach s @ [Win_addBrowserView None] @ reply_active s i @ [Win_send_fromMain i])
              (s\<lparr>defCurrentViewId := Some i\<rparr>))"
proof -
  have cv: "currentView (s\<lparr>defCurrentViewId := Some i\<rparr>) = None"
    using assms by (simp add: currentView_def truthy_id_def view_at_def)
  have rl: "relayout (s\<lparr>defCurrentViewId := Some i\<rparr>) = []"
    by (simp add: relayout_def cv)
  show ?thesis
    unfolding setCurrentView_def Let_def detach_log
    using assms
    by (simp add: truthy_id_def set_currentViewId_log rl cv reply_active_def)
qed

lemma destroyView_live:
  "views s i = Some (Some v) \<Longrightarrow>
   destroyView i s =
     log (if wc_isDestroyed v then [] else [Wc_destroy (view_id v)])
         (s\<lparr>views := (views s)(i \<mapsto> None)\<rparr>)"
  by (simp add: destroyView_def view_at_def Let_def)

lemma destroyView_none:
  "view_at s i = None \<Longrightarrow> destroyView i s = s"
  by (simp add: destroyView_def)

lemma loadURL_falsy:
  "\<not> truthy_str url \<Longrightarrow> loadURL url s = s"
  by (simp add: loadURL_def split: option.split)

lemma loadURL_live:
  assumes "defCurrentViewId s = Some i" and "i \<noteq> 0" and "views s i = Some (Some v)"
    and "u \<noteq> []"
  shows "loadURL (Some u) s =
     (if wc_MARKS v then log [Wc_loadURL (view_id v) u] s
      else log [Wc_on (view_id v), Wc_loadURL (view_id v) u,
                View_setBounds (view_id v) (content_bounds s)]
             (s\<lparr>views := (views s)(i \<mapsto> Some (v\<lparr>wc_MARKS := True\<rparr>))\<rparr>))"
proof -
  have cv: "currentView s = Some v"
    using assms by (simp add: currentView_live)
  have cv': "currentView (s\<lparr>views := (views s)(i \<mapsto> Some (v\<lparr>wc_MARKS := True\<rparr>))\<rparr>)
               = Some (v\<lparr>wc_MARKS := True\<rparr>)"
    using assms by (simp add: currentView_live)
  have rl: "relayout (s\<lparr>views := (views s)(i \<mapsto> Some (v\<lparr>wc_MARKS := True\<rparr>))\<rparr>)
               = [View_setBounds (view_id v) (content_bounds s)]"
    by (simp add: relayout_def cv' content_bounds_def)
  show ?thesis
    using assms
    by (simp add: loadURL_def cv truthy_str_def Let_def setContentBounds_log rl)
qed


lemma loadURL_fields [simp]:
  "options (loadURL u s) = options s"
  "defCurrentViewId (loadURL u s) = defCurrentViewId s"
  "defTabConfigs (loadURL u s) = defTabConfigs s"
  "ipc (loadURL u s) = ipc s"
  "tabs (loadURL u s) = tabs s"
  "win (loadURL u s) = win s"
  by (simp_all add: loadURL_def setContentBounds_log Let_def split: option.split)

lemma loadURL_views:
  "views (loadURL u s) =
     (case currentView s of
        None \<Rightarrow> views s
      | Some cv \<Rightarrow>
          if truthy_str u \<and> \<not> wc_MARKS cv
          then (views s)(the (defCurrentViewId s) \<mapsto> Some (cv\<lparr>wc_MARKS := True\<rparr>))
          else views s)"
  by (simp add: loadURL_def setContentBounds_log Let_def split: option.split)

lemma currentView_SomeD:
  "currentView s = Some v \<Longrightarrow>
   \<exists>i. defCurrentViewId s = Some i \<and> i \<noteq> 0 \<and> views s i = Some (Some v)"
  by (auto simp: currentView_def view_at_def truthy_id_def split: if_splits option.splits)

lemma loadURL_view_at:
  "view_at (loadURL u s) j =
     (if truthy_str u \<and> defCurrentViewId s = Some j \<and> j \<noteq> 0
      then map_option (\<lambda>v. v\<lparr>wc_MARKS := True\<rparr>) (view_at s j)
      else view_at s j)"
proof (cases "currentView s")
  case None
  then show ?thesis
    by (auto simp: view_at_def loadURL_views currentView_def truthy_id_def
        split: option.splits if_splits)
next
  case (Some cv)
  from currentView_SomeD [OF this] obtain i where
    i: "defCurrentViewId s = Some i" "i \<noteq> 0" "views s i = Some (Some cv)" by blast
  have eq: "cv\<lparr>wc_MARKS := True\<rparr> = cv" if "wc_MARKS cv"
    using that by simp
  show ?thesis
    using Some i eq by (auto simp: view_at_def loadURL_views)
qed

lemma setTabConfig_fields [simp]:
  "options (setTabConfig k kv s) = options s"
  "defCurrentViewId (setTabConfig k kv s) = defCurrentViewId s"
  "ipc (setTabConfig k kv s) = ipc s"
  "tabs (setTabConfig k kv s) = tabs s"
  "views (setTabConfig k kv s) = views s"
  "win (setTabConfig k kv s) = win s"
  by (simp_all add: setTabConfig_log set_tabConfigs_log)

lemma setTabConfig_confs:
  "defTabConfigs (setTabConfig k kv s) =
     (defTabConfigs s)(k \<mapsto>
        Some (tab_of s k ++ nav_flags (case k of Some i \<Rightarrow> view_at s i | None \<Rightarrow> None) ++ kv))"
  by (simp add: setTabConfig_log set_tabConfigs_log)

lemma setTabConfig_trace:
  "trace (setTabConfig k kv s) =
     trace s @ reply_tabs s (defTabConfigs (setTabConfig k kv s)) (tabs s)"
  by (simp add: setTabConfig_log set_tabConfigs_log)

lemma newTab_unfold:
  assumes nz: "view_id view \<noteq> 0"
  shows "newTab url a view s =
    (let T = (if truthy_id a
              then splice_insert (indexOf (tabs s) (the a) + 1) (view_id view) (tabs s)
              else tabs s @ [view_id view]);
         s3 = s\<lparr>tabs := T, views := (views s)(view_id view \<mapsto> Some view)\<rparr>;
         s4 = log ([Wc_setWindowOpenHandler (view_id view)] @ detach s3
                   @ [Win_addBrowserView (Some (view_id view)),
                      View_setBounds (view_id view) (content_bounds s)]
                   @ reply_active s (view_id view)
                   @ [Win_send_fromMain (view_id view), Wc_focus (view_id view),
                      View_setAutoResize (view_id view)])
                  (s3\<lparr>defCurrentViewId := Some (view_id view)\<rparr>);
         s6 = loadURL (if truthy_str url then url else blankPage (options s)) s4;
         s7 = setTabConfig (Some (view_id view)) [''title'' \<mapsto> JStr (blankTitle (options s))] s6
     in Inr (log [Emit (Ev_new_tab (view_id view) url (map_option view_id (currentView s3)))] s7))"
proof (cases "truthy_id a")
  case True
  let ?s3 = "log [Wc_setWindowOpenHandler (view_id view)]
               (s\<lparr>tabs := splice_insert (indexOf (tabs s) (the a) + 1) (view_id view) (tabs s),
                   views := (views s)(view_id view \<mapsto> Some view)\<rparr>)"
  have A: "setCurrentView (Some (view_id view)) ?s3 = Inr (log (detach ?s3
               @ [Win_addBrowserView (Some (view_id view)), View_setBounds (view_id view) (content_bounds ?s3)]
               @ reply_active ?s3 (view_id view)
               @ [Win_send_fromMain (view_id view), Wc_focus (view_id view)])
              (?s3\<lparr>defCurrentViewId := Some (view_id view)\<rparr>))"
    by (rule setCurrentView_live) (simp_all add: nz)
  show ?thesis
    using True A
    by (simp add: newTab_def Let_def detach_def reply_active_def content_bounds_def)
next
  case False
  let ?s3 = "log [Wc_setWindowOpenHandler (view_id view)]
               (s\<lparr>tabs := tabs s @ [view_id view],
                   views := (views s)(view_id view \<mapsto> Some view)\<rparr>)"
  have A: "setCurrentView (Some (view_id view)) ?s3 = Inr (log (detach ?s3
               @ [Win_addBrowserView (Some (view_id view)), View_setBounds (view_id view) (content_bounds ?s3)]
               @ reply_active ?s3 (view_id view)
               @ [Win_send_fromMain (view_id view), Wc_focus (view_id view)])
              (?s3\<lparr>defCurrentViewId := Some (view_id view)\<rparr>))"
    by (rule setCurrentView_live) (simp_all add: nz)
  show ?thesis
    using False A
    by (simp add: newTab_def Let_def detach_def reply_active_def content_bounds_def)
qed


lemma newTab_returns:
  "view_id view \<noteq> 0 \<Longrightarrow> newTab url a view s = Inr (state_of (newTab url a view s))"
  by (simp add: newTab_unfold Let_def state_of_def)

lemma newTab_fields:
  assumes nz: "view_id view \<noteq> 0"
  shows "tabs (state_of (newTab url a view s)) =
           (if truthy_id a
            then splice_insert (indexOf (tabs s) (the a) + 1) (view_id view) (tabs s)
            else tabs s @ [view_id view])"
    and "defCurrentViewId (state_of (newTab url a view s)) = Some (view_id view)"
    and "ipc (state_of (newTab url a view s)) = ipc s"
    and "win (state_of (newTab url a view s)) = win s"
    and "options (state_of (newTab url a view s)) = options s"
  by (simp_all add: newTab_unfold [OF nz] Let_def state_of_def)

lemma newTab_view_at:
  assumes nz: "view_id view \<noteq> 0"
  shows "view_at (state_of (newTab url a view s)) j =
           (if j = view_id view
            then Some (if truthy_str (if truthy_str url then url else blankPage (options s))
                       then view\<lparr>wc_MARKS := True\<rparr> else view)
            else view_at s j)"
  using nz
  by (simp add: newTab_unfold [OF nz] Let_def state_of_def view_at_cong [of "setTabConfig _ _ _"]
      loadURL_view_at) (simp add: view_at_def)

lemma newTab_confs:
  assumes nz: "view_id view \<noteq> 0"
  shows "defTabConfigs (state_of (newTab url a view s)) =
           (defTabConfigs s)(Some (view_id view) \<mapsto>
              Some (tab_of s (Some (view_id view))
                    ++ nav_flags (Some view)
                    ++ [''title'' \<mapsto> JStr (blankTitle (options s))]))"
  by (simp add: newTab_unfold [OF nz] Let_def state_of_def setTabConfig_confs loadURL_view_at
      tab_of_def nav_flags_def)
     (simp add: view_at_def)

lemma newTab_last_effect:
  assumes nz: "view_id view \<noteq> 0"
  shows "last (trace (state_of (newTab url a view s))) =
           Emit (Ev_new_tab (view_id view) url
                   (map_option view_id
                      (currentView (s\<lparr>views := (views s)(view_id view \<mapsto> Some view)\<rparr>))))"
  by (simp add: newTab_unfold [OF nz] Let_def state_of_def
      currentView_cong [of "s\<lparr>tabs := _, views := _\<rparr>" "s\<lparr>views := (views s)(view_id view \<mapsto> Some view)\<rparr>"])

subsection \<open>Array indices\<close>

lemma indexOf_absent: "a \<notin> set xs \<Longrightarrow> indexOf xs a = -1"
  by (induction xs) (auto simp: Let_def)

lemma indexOf_nonneg: "a \<in> set xs \<Longrightarrow> 0 \<le> indexOf xs a"
  by (induction xs) (auto simp: Let_def)

lemma indexOf_first: "a \<notin> set xs \<Longrightarrow> indexOf (xs @ a # ys) a = int (length xs)"
  by (induction xs) (auto simp: Let_def)

lemma at_index_after:
  "at_index (xs @ a # ys) (int (length xs) + 1) = (case ys of [] \<Rightarrow> None | y # _ \<Rightarrow> Some y)"
  by (cases ys) (auto simp: at_index_def nth_append nat_add_distrib)

lemma at_index_before:
  "at_index (xs @ [a]) (int (length xs) - 1) = (if xs = [] then None else Some (last xs))"
proof (cases xs rule: rev_cases)
  case Nil
  then show ?thesis by (simp add: at_index_def)
next
  case (snoc ys y)
  then show ?thesis by (simp add: at_index_def nth_append)
qed

lemma splice_insert_after:
  "a \<notin> set xs \<Longrightarrow>
   splice_insert (indexOf (xs @ a # ys) a + 1) b (xs @ a # ys) = xs @ a # b # ys"
  by (simp add: indexOf_first splice_insert_def nat_add_distrib)

lemma splice_insert_absent:
  "a \<notin> set xs \<Longrightarrow> splice_insert (indexOf xs a + 1) b xs = b # xs"
  by (simp add: indexOf_absent splice_insert_def)

subsection \<open>The close-tab listener\<close>

lemma close_tab_rest:
  "log [Emit (Ev_close_tab i)] (destroyView i (set_tabConfigs C (s1\<lparr>tabs := F\<rparr>))) =
   log (reply_tabs s1 C F
        @ (case view_at s1 i of
             Some v \<Rightarrow> if wc_isDestroyed v then [] else [Wc_destroy (view_id v)]
           | None \<Rightarrow> [])
        @ [Emit (Ev_close_tab i)])
       (s1\<lparr>tabs := F, defTabConfigs := C,
           views := (if view_at s1 i = None then views s1 else (views s1)(i \<mapsto> None))\<rparr>)"
  by (auto simp: set_tabConfigs_log destroyView_def reply_tabs_def view_at_def
      split: option.splits)

subsection \<open>The concrete window\<close>

lemma example_new_fields:
  "tabs example_new = []"
  "defCurrentViewId example_new = None"
  "views example_new = Map.empty"
  "defTabConfigs example_new = Map.empty"
  "ipc example_new = None"
  "win example_new = example_window"
  "options example_new = example_options"
  "trace example_new = []"
  by (simp_all add: example_new_def constructor_def)

lemma example_new_view_at [simp]: "view_at (example_new\<lparr>ipc := e\<rparr>) j = None"
  by (simp add: view_at_def example_new_fields)

lemma example_view_id [simp]: "view_id (example_view i) = i"
  by (simp add: example_view_def)

lemma control_ready_state:
  assumes "view_id view \<noteq> 0"
  shows "control_ready e view s =
     Inr (log [Win_show, Emit (Ev_control_ready e)]
            (state_of (newTab (if truthy_str (startPage (options s)) then startPage (options s)
                               else Some '''') None view (s\<lparr>ipc := Some e\<rparr>))))"
proof -
  let ?u = "if truthy_str (startPage (options s)) then startPage (options s) else Some ''''"
  obtain s' where s': "newTab ?u None view (s\<lparr>ipc := Some e\<rparr>) = Inr s'"
    using newTab_returns [OF assms] by blast
  then show ?thesis
    by (cases "truthy_str (startPage (options s))")
       (simp_all add: control_ready_def Let_def state_of_def)
qed

lemma example_ready_eq:
  "example_ready =
     log [Win_show, Emit (Ev_control_ready \<lparr>sender = 100\<rparr>)]
       (state_of (newTab (Some ''http://x.test'') None (example_view 1)
                    (example_new\<lparr>ipc := Some \<lparr>sender = 100\<rparr>\<rparr>)))"
  by (simp add: example_ready_def control_ready_state state_of_def example_new_fields
      example_options_def truthy_str_def)

lemma example_ready_fields:
  "tabs example_ready = [1]"
  "defCurrentViewId example_ready = Some 1"
  "ipc example_ready = Some \<lparr>sender = 100\<rparr>"
  "win example_ready = example_window"
  "options example_ready = example_options"
  by (simp_all add: example_ready_eq newTab_fields truthy_id_def example_new_fields)

lemma example_ready_view_at:
  "view_at example_ready j = (if j = 1 then Some ((example_view 1)\<lparr>wc_MARKS := True\<rparr>) else None)"
  by (simp add: example_ready_eq newTab_view_at truthy_str_def example_new_view_at)

lemma example_ready_currentView:
  "currentView example_ready = Some ((example_view 1)\<lparr>wc_MARKS := True\<rparr>)"
  by (simp add: currentView_def example_ready_fields truthy_id_def example_ready_view_at)

lemma example_two_fields:
  "tabs example_two = [1, 2]"
  "defCurrentViewId example_two = Some 2"
  "ipc example_two = Some \<lparr>sender = 100\<rparr>"
  "win example_two = example_window"
  "options example_two = example_options"
  by (simp_all add: example_two_def newTab_fields truthy_id_def example_ready_fields)

lemma example_two_view_at:
  "view_at example_two j =
     (if j = 2 then Some (example_view 2)
      else if j = 1 then Some ((example_view 1)\<lparr>wc_MARKS := True\<rparr>) else None)"
  by (simp add: example_two_def newTab_view_at truthy_str_def example_ready_view_at
      example_ready_fields example_options_def)

section \<open>Claims\<close>

text \<open>
  Claim C7. Every command the wrapper of setChannel receives reaches its listener only when
  the window is not destroyed and the sender of the message is the window's own control
  surface; from any other sender the object is returned as it was, with its order, tab
  configurations, current view id, views and trace unchanged.
\<close>

theorem channel_sender_guard:
  "(win_isDestroyed (win s) \<or> sender e \<noteq> win_webContents (win s)
      \<longrightarrow> channel view e c s = Inr s)
   \<and> (\<not> win_isDestroyed (win s) \<and> sender e = win_webContents (win s)
      \<longrightarrow> channel view e c s = listener view e c s)"
  by (simp add: channel_def)

theorem channel_sender_guard_witness:
  "channel (example_view 2) \<lparr>sender = 200\<rparr> (Close_tab 1) example_ready = Inr example_ready
   \<and> channel (example_view 2) \<lparr>sender = 100\<rparr> (Close_tab 1) example_ready
       = listener (example_view 2) \<lparr>sender = 100\<rparr> (Close_tab 1) example_ready"
  using channel_sender_guard [of example_ready "\<lparr>sender = 200\<rparr>" "example_view 2" "Close_tab 1"]
        channel_sender_guard [of example_ready "\<lparr>sender = 100\<rparr>" "example_view 2" "Close_tab 1"]
  by (simp add: example_ready_fields example_window_def)

lemma log_trace_eq: "log es s = s\<lparr>trace := trace s @ es\<rparr>"
  by (simp add: log_def)

text \<open>
  Claim C10. When the action name sent with "act" is a function of the current view's web
  contents, the action "reload" on a web contents whose URL is the empty string returns
  without calling anything and without a warning (the object and its trace are as
  before); in every other case the function is called on the web contents, and nothing
  else happens.
\<close>

theorem act_resolved_function:
  assumes "currentView s = Some wc" and "name \<in> set (wc_functions wc)"
  shows "webContentsAct name s =
           (if name = ''reload'' \<and> wc_URL wc = '''' then s
            else s\<lparr>trace := trace s @ [Wc_call (view_id wc) name]\<rparr>)"
  using assms by (simp add: webContentsAct_def log_def)

lemma example_view_functions:
  "wc_functions ((example_view i)\<lparr>wc_MARKS := True\<rparr>) =
     [''reload'', ''stop'', ''goBack'', ''goForward'', ''focus'', ''destroy'', ''getURL'', ''loadURL'']"
  "wc_URL ((example_view i)\<lparr>wc_MARKS := True\<rparr>) = ''''"
  "view_id ((example_view i)\<lparr>wc_MARKS := True\<rparr>) = i"
  "wc_isDestroyed ((example_view i)\<lparr>wc_MARKS := True\<rparr>) = False"
  by (simp_all add: example_view_def)

theorem act_resolved_function_witness:
  "webContentsAct ''reload'' example_ready = example_ready
   \<and> webContentsAct ''stop'' example_ready
       = example_ready\<lparr>trace := trace example_ready @ [Wc_call 1 ''stop'']\<rparr>"
  using act_resolved_function [OF example_ready_currentView, of "''reload''"]
        act_resolved_function [OF example_ready_currentView, of "''stop''"]
  by (simp add: example_view_functions)

text \<open>
  Claim C8, as amended. The listener of "act" looks the name up on the web contents of the
  current view. When there is no current view, or the name is not a function of its web
  contents, a warning is logged, nothing is called, and no field of the object other than
  the trace changes. A name outside reload, stop, goBack and goForward that is a function
  of the web contents is called, as the counterexample shows for "destroy".
\<close>

theorem act_unresolved_warns:
  assumes "currentView s = None \<or> (\<exists>wc. currentView s = Some wc \<and> name \<notin> set (wc_functions wc))"
  shows "webContentsAct name s = s\<lparr>trace := trace s @ [Log_warn name]\<rparr>"
  using assms by (auto simp: webContentsAct_def log_def)

theorem act_unresolved_warns_witness:
  "webContentsAct ''back'' example_ready
     = example_ready\<lparr>trace := trace example_ready @ [Log_warn ''back'']\<rparr>"
  using act_unresolved_warns [of example_ready "''back''"]
  by (simp add: example_ready_currentView example_view_functions)

theorem act_other_function_counterexample:
  "''destroy'' \<notin> set [''reload'', ''stop'', ''back'', ''forward'', ''goBack'', ''goForward'']
   \<and> webContentsAct ''destroy'' example_ready
       = example_ready\<lparr>trace := trace example_ready @ [Wc_call 1 ''destroy'']\<rparr>"
  by (simp add: webContentsAct_def example_ready_currentView example_view_functions log_def)

lemma filter_neq_removeAll: "filter (\<lambda>v. v \<noteq> i) xs = removeAll i xs"
  by (induction xs) auto

lemma close_tab_not_current:
  "Some i \<noteq> defCurrentViewId s \<Longrightarrow>
   close_tab i s =
     Inr (log (reply_tabs s ((defTabConfigs s)(Some i \<mapsto> None)) (removeAll i (tabs s))
               @ (case view_at s i of
                    Some v \<Rightarrow> if wc_isDestroyed v then [] else [Wc_destroy (view_id v)]
                  | None \<Rightarrow> [])
               @ [Emit (Ev_close_tab i)])
            (s\<lparr>tabs := removeAll i (tabs s),
               defTabConfigs := (defTabConfigs s)(Some i \<mapsto> None),
               views := (if view_at s i = None then views s else (views s)(i \<mapsto> None))\<rparr>))"
  unfolding close_tab_def by (simp add: Let_def close_tab_rest filter_neq_removeAll)

text \<open>
  Claim C9. Closing a tab that has a view and is not the current one leaves the current
  view id as it is and performs no removeBrowserView, addBrowserView or active-update:
  the id is removed from the order (the other ids keep their order), its configuration
  becomes null, its entry in \<open>views\<close> becomes null, and the calls made are the tabs-update
  reply (when the control panel is ready), the destruction of the web contents (unless it
  is destroyed already) and the close-tab event.
\<close>

theorem close_inactive_tab:
  assumes "Some i \<noteq> defCurrentViewId s" and "views s i = Some (Some v)"
  shows "close_tab i s =
     Inr (s\<lparr>tabs := removeAll i (tabs s),
            defTabConfigs := (defTabConfigs s)(Some i \<mapsto> None),
            views := (views s)(i \<mapsto> None),
            trace := trace s
              @ reply_tabs s ((defTabConfigs s)(Some i \<mapsto> None)) (removeAll i (tabs s))
              @ (if wc_isDestroyed v then [] else [Wc_destroy (view_id v)])
              @ [Emit (Ev_close_tab i)]\<rparr>)"
  using assms by (simp add: close_tab_not_current view_at_def log_def)

theorem close_inactive_tab_witness:
  "close_tab 1 example_two =
     Inr (example_two\<lparr>tabs := [2],
            defTabConfigs := (defTabConfigs example_two)(Some 1 \<mapsto> None),
            views := (views example_two)(1 \<mapsto> None),
            trace := trace example_two
              @ [Ipc_reply_tabs_update ((defTabConfigs example_two)(Some 1 \<mapsto> None)) [2],
                 Wc_destroy 1, Emit (Ev_close_tab 1)]\<rparr>)"
proof -
  have v: "views example_two 1 = Some (Some ((example_view 1)\<lparr>wc_MARKS := True\<rparr>))"
    using example_two_view_at [of 1]
    by (simp add: view_at_def split: option.splits)
  have c: "Some 1 \<noteq> defCurrentViewId example_two"
    by (simp add: example_two_fields)
  show ?thesis
    using close_inactive_tab [OF c v]
    by (simp add: example_two_fields reply_tabs_def example_view_functions)
qed

text \<open>
  Claim C5, as amended. For an id that is not in the order, has no view and is not the
  current view id, the close-tab listener leaves the order, the views and the current
  view id unchanged; it still stores a null configuration under the id, replies with
  tabs-update (when the control panel is ready) and emits the close-tab event.
\<close>

theorem close_absent_tab:
  assumes "i \<notin> set (tabs s)" and "view_at s i = None" and "Some i \<noteq> defCurrentViewId s"
  shows "close_tab i s =
     Inr (s\<lparr>defTabConfigs := (defTabConfigs s)(Some i \<mapsto> None),
            trace := trace s
              @ reply_tabs s ((defTabConfigs s)(Some i \<mapsto> None)) (tabs s)
              @ [Emit (Ev_close_tab i)]\<rparr>)"
  using assms by (simp add: close_tab_not_current log_def)

theorem close_absent_tab_witness:
  "close_tab 7 example_ready =
     Inr (example_ready\<lparr>defTabConfigs := (defTabConfigs example_ready)(Some 7 \<mapsto> None),
            trace := trace example_ready
              @ [Ipc_reply_tabs_update ((defTabConfigs example_ready)(Some 7 \<mapsto> None)) [1],
                 Emit (Ev_close_tab 7)]\<rparr>)"
  using close_absent_tab [of 7 example_ready]
  by (simp add: example_ready_fields example_ready_view_at reply_tabs_def)

theorem close_absent_tab_counterexample:
  "7 \<notin> set (tabs example_new) \<and> defTabConfigs example_new (Some 7) = None
   \<and> views example_new 7 = None \<and> defCurrentViewId example_new \<noteq> Some 7
   \<and> defTabConfigs (state_of (close_tab 7 example_new)) (Some 7) = Some None
   \<and> trace (state_of (close_tab 7 example_new)) = [Emit (Ev_close_tab 7)]"
  by (simp add: close_tab_not_current example_new_fields state_of_def reply_tabs_def view_at_def)

lemma log_neq_self:
  assumes "log es t = s" and "trace t = trace s"
  shows "es = []"
proof -
  from assms(1) have "trace (log es t) = trace s" by (rule arg_cong)
  with assms(2) show ?thesis by simp
qed

text \<open>
  Claim C4, as amended. switchTab returns without any effect exactly when the id is falsy
  (the number 0). When the id is already the current view id and has a view, the fields
  of the object keep their values, but the call again removes the view from the window,
  adds it, sets its bounds, replies active-update (when the control panel is ready),
  sends fromMain and focuses the web contents: every repeated call appends these calls to
  the trace once more.
\<close>

theorem switchTab_repeats_effects:
  "(switchTab i s = Inr s \<longleftrightarrow> i = 0)
   \<and> (defCurrentViewId s = Some i \<and> i \<noteq> 0 \<and> views s i = Some (Some v) \<longrightarrow>
        switchTab i s =
          Inr (s\<lparr>trace := trace s
                 @ [Win_removeBrowserView (view_id v), Win_addBrowserView (Some (view_id v)),
                    View_setBounds (view_id v) (content_bounds s)]
                 @ reply_active s i
                 @ [Win_send_fromMain i, Wc_focus (view_id v)]\<rparr>))"
proof (intro conjI impI)
  show "switchTab i s = Inr s \<longleftrightarrow> i = 0"
  proof
    assume r: "switchTab i s = Inr s"
    show "i = 0"
    proof (rule ccontr)
      assume nz: "i \<noteq> 0"
      show False
      proof (cases "views s i")
        case None
        then have "view_at s i = None" by (simp add: view_at_def)
        from setCurrentView_missing [OF nz this] r show False
          by (simp add: switchTab_def)
      next
        case (Some w)
        show False
        proof (cases w)
          case None
          with Some have "view_at s i = None" by (simp add: view_at_def)
          from setCurrentView_missing [OF nz this] r show False
            by (simp add: switchTab_def)
        next
          case (Some v')
          with \<open>views s i = Some w\<close> have "views s i = Some (Some v')" by simp
          from setCurrentView_live [OF nz this] r
          have "log (detach s @ [Win_addBrowserView (Some (view_id v')),
                   View_setBounds (view_id v') (content_bounds s)] @ reply_active s i
                 @ [Win_send_fromMain i, Wc_focus (view_id v')]) (s\<lparr>defCurrentViewId := Some i\<rparr>) = s"
            by (simp add: switchTab_def)
          then have "detach s @ [Win_addBrowserView (Some (view_id v')),
                   View_setBounds (view_id v') (content_bounds s)] @ reply_active s i
                 @ [Win_send_fromMain i, Wc_focus (view_id v')] = []"
            by (rule log_neq_self) simp
          then show False by simp
        qed
      qed
    qed
  next
    assume "i = 0"
    then show "switchTab i s = Inr s"
      by (simp add: switchTab_def setCurrentView_falsy truthy_id_def)
  qed
next
  assume a: "defCurrentViewId s = Some i \<and> i \<noteq> 0 \<and> views s i = Some (Some v)"
  then have cv: "currentView s = Some v"
    by (simp add: currentView_live)
  have same: "s\<lparr>defCurrentViewId := Some i\<rparr> = s"
    using a by simp
  show "switchTab i s =
          Inr (s\<lparr>trace := trace s
                 @ [Win_removeBrowserView (view_id v), Win_addBrowserView (Some (view_id v)),
                    View_setBounds (view_id v) (content_bounds s)]
                 @ reply_active s i
                 @ [Win_send_fromMain i, Wc_focus (view_id v)]\<rparr>)"
    using a setCurrentView_live [of i s v]
    by (simp add: switchTab_def detach_def cv same log_def)
qed


lemma view_at_SomeD: "view_at s i = Some v \<Longrightarrow> views s i = Some (Some v)"
  by (simp add: view_at_def split: option.splits)

lemma example_ready_views_1:
  "views example_ready 1 = Some (Some ((example_view 1)\<lparr>wc_MARKS := True\<rparr>))"
  by (rule view_at_SomeD) (simp add: example_ready_view_at)

lemma example_ready_content_bounds:
  "content_bounds example_ready =
     \<lparr>bounds_height = 560, bounds_width = 800, bounds_x = 0, bounds_y = 40\<rparr>"
  by (simp add: content_bounds_def example_ready_fields example_window_def example_options_def)

theorem switchTab_repeats_effects_witness:
  "switchTab 0 example_ready = Inr example_ready
   \<and> switchTab 1 example_ready =
       Inr (example_ready\<lparr>trace := trace example_ready
              @ [Win_removeBrowserView 1, Win_addBrowserView (Some 1),
                 View_setBounds 1
                   \<lparr>bounds_height = 560, bounds_width = 800, bounds_x = 0, bounds_y = 40\<rparr>,
                 Ipc_reply_active_update 1, Win_send_fromMain 1, Wc_focus 1]\<rparr>)"
  using switchTab_repeats_effects [of 0 example_ready]
        switchTab_repeats_effects [of 1 example_ready "(example_view 1)\<lparr>wc_MARKS := True\<rparr>"]
        example_ready_views_1
  by (simp add: example_ready_fields example_ready_content_bounds
      reply_active_def example_view_functions)

theorem switchTab_active_counterexample:
  "defCurrentViewId example_ready = Some 1
   \<and> trace (state_of (switchTab 1 example_ready)) =
       trace example_ready
       @ [Win_removeBrowserView 1, Win_addBrowserView (Some 1),
          View_setBounds 1
            \<lparr>bounds_height = 560, bounds_width = 800, bounds_x = 0, bounds_y = 40\<rparr>,
          Ipc_reply_active_update 1, Win_send_fromMain 1, Wc_focus 1]"
  using setCurrentView_live [of 1 example_ready "(example_view 1)\<lparr>wc_MARKS := True\<rparr>"]
        example_ready_views_1
  by (simp add: switchTab_def state_of_def example_ready_fields
      example_ready_content_bounds reply_active_def example_view_functions detach_def
      example_ready_currentView)

text \<open>
  Claim C6, as amended. setTabConfig stores under the id an object with every property
  of \<open>kv\<close>, every earlier property of the tab that is neither in \<open>kv\<close> nor canGoBack or
  canGoForward, and canGoBack and canGoForward read from the web contents of the id's
  view (undefined when the id has no view) unless \<open>kv\<close> gives them. The other entries of
  tabConfigs and all other fields are unchanged, and the tabs-update reply (sent when the
  control panel is ready) carries the new tabConfigs and the order. When the id has no
  entry, an entry is created: the call is not a no-op, as the counterexample shows.
\<close>

theorem setTabConfig_merges:
  "\<exists>t. defTabConfigs (setTabConfig k kv s) k = Some (Some t)
       \<and> (\<forall>f \<in> dom kv. t f = kv f)
       \<and> (\<forall>f. f \<notin> dom kv \<and> f \<noteq> ''canGoBack'' \<and> f \<noteq> ''canGoForward'' \<longrightarrow> t f = tab_of s k f)
       \<and> (''canGoBack'' \<notin> dom kv \<longrightarrow>
            t ''canGoBack'' =
              Some (case (case k of Some i \<Rightarrow> view_at s i | None \<Rightarrow> None) of
                      Some v \<Rightarrow> JBool (wc_canGoBack v) | None \<Rightarrow> JUndefined))
       \<and> (''canGoForward'' \<notin> dom kv \<longrightarrow>
            t ''canGoForward'' =
              Some (case (case k of Some i \<Rightarrow> view_at s i | None \<Rightarrow> None) of
                      Some v \<Rightarrow> JBool (wc_canGoForward v) | None \<Rightarrow> JUndefined))
       \<and> (\<forall>k'. k' \<noteq> k \<longrightarrow> defTabConfigs (setTabConfig k kv s) k' = defTabConfigs s k')
       \<and> setTabConfig k kv s =
           s\<lparr>defTabConfigs := defTabConfigs (setTabConfig k kv s),
             trace := trace s
               @ reply_tabs s (defTabConfigs (setTabConfig k kv s)) (tabs s)\<rparr>"
proof -
  let ?w = "case k of Some i \<Rightarrow> view_at s i | None \<Rightarrow> None"
  let ?t = "tab_of s k ++ nav_flags ?w ++ kv"
  have c: "defTabConfigs (setTabConfig k kv s) = (defTabConfigs s)(k \<mapsto> Some ?t)"
    by (rule setTabConfig_confs)
  have 1: "defTabConfigs (setTabConfig k kv s) k = Some (Some ?t)"
    by (simp add: c)
  have 2: "\<forall>f \<in> dom kv. ?t f = kv f"
    by (auto simp: map_add_def)
  have 3: "\<forall>f. f \<notin> dom kv \<and> f \<noteq> ''canGoBack'' \<and> f \<noteq> ''canGoForward'' \<longrightarrow> ?t f = tab_of s k f"
    by (auto simp: map_add_def nav_flags_def dom_def split: option.splits)
  have 4: "''canGoBack'' \<notin> dom kv \<longrightarrow> ?t ''canGoBack'' =
              Some (case ?w of Some v \<Rightarrow> JBool (wc_canGoBack v) | None \<Rightarrow> JUndefined)"
    by (auto simp: map_add_def nav_flags_def dom_def split: option.splits)
  have 5: "''canGoForward'' \<notin> dom kv \<longrightarrow> ?t ''canGoForward'' =
              Some (case ?w of Some v \<Rightarrow> JBool (wc_canGoForward v) | None \<Rightarrow> JUndefined)"
    by (auto simp: map_add_def nav_flags_def dom_def split: option.splits)
  have 6: "\<forall>k'. k' \<noteq> k \<longrightarrow> defTabConfigs (setTabConfig k kv s) k' = defTabConfigs s k'"
    by (simp add: c)
  have 7: "setTabConfig k kv s =
           s\<lparr>defTabConfigs := defTabConfigs (setTabConfig k kv s),
             trace := trace s @ reply_tabs s (defTabConfigs (setTabConfig k kv s)) (tabs s)\<rparr>"
    unfolding c by (simp add: setTabConfig_log set_tabConfigs_log log_def reply_tabs_def)
  show ?thesis
    by (rule exI [of _ ?t]) (intro conjI 1 2 3 4 5 6 7)
qed


lemma example_ready_confs:
  "defTabConfigs example_ready =
     [Some 1 \<mapsto> Some [''canGoBack'' \<mapsto> JBool False, ''canGoForward'' \<mapsto> JBool False,
                         ''title'' \<mapsto> JStr ''New tab'']]"
proof -
  have "tab_of (example_new\<lparr>ipc := Some \<lparr>sender = 100\<rparr>\<rparr>) (Some 1) = Map.empty"
    by (simp add: tab_of_def example_new_fields)
  then show ?thesis
    by (simp add: example_ready_eq newTab_confs example_new_fields nav_flags_def
        example_options_def example_view_def)
qed

theorem setTabConfig_merges_witness:
  "\<exists>t. defTabConfigs (setTabConfig (Some 1) [''url'' \<mapsto> JStr ''u''] example_ready) (Some 1)
          = Some (Some t)
       \<and> t ''url'' = Some (JStr ''u'')
       \<and> t ''title'' = Some (JStr ''New tab'')
       \<and> t ''canGoBack'' = Some (JBool False)"
proof -
  from setTabConfig_merges [of "Some 1" "[''url'' \<mapsto> JStr ''u'']" example_ready]
  obtain t where
    a: "defTabConfigs (setTabConfig (Some 1) [''url'' \<mapsto> JStr ''u''] example_ready) (Some 1)
          = Some (Some t)"
    and b: "\<forall>f \<in> dom [''url'' \<mapsto> JStr ''u'']. t f = [''url'' \<mapsto> JStr ''u''] f"
    and c: "\<forall>f. f \<notin> dom [''url'' \<mapsto> JStr ''u''] \<and> f \<noteq> ''canGoBack'' \<and> f \<noteq> ''canGoForward''
              \<longrightarrow> t f = tab_of example_ready (Some 1) f"
    and d: "''canGoBack'' \<notin> dom [''url'' \<mapsto> JStr ''u''] \<longrightarrow>
            t ''canGoBack'' =
              Some (case (case Some (1::nat) of Some i \<Rightarrow> view_at example_ready i | None \<Rightarrow> None) of
                      Some v \<Rightarrow> JBool (wc_canGoBack v) | None \<Rightarrow> JUndefined)"
    by (elim exE conjE)
  from b have 1: "t ''url'' = Some (JStr ''u'')" by simp
  from c have 2: "t ''title'' = Some (JStr ''New tab'')"
    by (simp add: tab_of_def example_ready_confs)
  from d have 3: "t ''canGoBack'' = Some (JBool False)"
    by (simp add: example_ready_view_at example_view_def)
  from a 1 2 3 show ?thesis by (intro exI [of _ t] conjI)
qed

theorem setTabConfig_absent_counterexample:
  "5 \<notin> set (tabs example_ready) \<and> defTabConfigs example_ready (Some 5) = None
   \<and> views example_ready 5 = None
   \<and> defTabConfigs (setTabConfig (Some 5) [''url'' \<mapsto> JStr ''u''] example_ready) (Some 5)
       = Some (Some [''canGoBack'' \<mapsto> JUndefined, ''canGoForward'' \<mapsto> JUndefined,
                     ''url'' \<mapsto> JStr ''u''])
   \<and> length (trace (setTabConfig (Some 5) [''url'' \<mapsto> JStr ''u''] example_ready))
       = length (trace example_ready) + 1"
proof -
  have v: "views example_ready 5 = None"
    by (simp add: example_ready_eq newTab_unfold Let_def state_of_def loadURL_views
        example_new_fields split: option.split)
  have va: "view_at example_ready 5 = None"
    by (simp add: example_ready_view_at)
  have t: "tab_of example_ready (Some 5) = Map.empty"
    by (simp add: tab_of_def example_ready_confs)
  show ?thesis
    by (simp add: v va t example_ready_fields example_ready_confs setTabConfig_confs
        setTabConfig_trace reply_tabs_def nav_flags_def)
qed

lemma at_index_mem: "at_index xs k = Some n \<Longrightarrow> n \<in> set xs"
  by (auto simp: at_index_def split: if_splits)

text \<open>
  Claim C1, as amended. Let the current view id be \<open>i\<close>, at its place in a duplicate-free
  order \<open>xs @ i # ys\<close> whose ids are positive and have views. The close-tab listener
  returns normally, the order becomes \<open>xs @ ys\<close>, and the current view id becomes the id
  right after \<open>i\<close> when there is one, else the id right before it. When \<open>i\<close> was the only
  tab, the current view id stays \<open>i\<close>; the getter currentView then yields no view, and it
  yields no view only in that case. Every field after the close is fixed: the
  configuration of \<open>i\<close> becomes null, its entry in \<open>views\<close> becomes null, and the trace grows by
  the switch to the neighbour (remove, add, bounds, active-update, fromMain, focus), if
  there is one, followed by the tabs-update reply, the destruction of the web contents
  and the close-tab event. When \<open>i\<close> was the only tab there is no switch, so no
  active-update is sent.
\<close>

theorem close_active_tab:
  assumes cur: "defCurrentViewId s = Some i"
    and order: "tabs s = xs @ i # ys"
    and dist: "distinct (tabs s)"
    and live: "\<forall>j \<in> set (tabs s). j \<noteq> 0 \<and> view_at s j \<noteq> None"
    and vi: "view_at s i = Some vi"
  shows "\<exists>s'. close_tab i s = Inr s'
           \<and> tabs s' = xs @ ys
           \<and> defCurrentViewId s' =
               (case ys of y # _ \<Rightarrow> Some y
                | [] \<Rightarrow> if xs = [] then Some i else Some (last xs))
           \<and> (xs @ ys = [] \<longleftrightarrow> currentView s' = None)
           \<and> defTabConfigs s' = (defTabConfigs s)(Some i \<mapsto> None)
           \<and> views s' = (views s)(i \<mapsto> None)
           \<and> options s' = options s \<and> ipc s' = ipc s \<and> win s' = win s
           \<and> (xs @ ys = [] \<longrightarrow>
                trace s' = trace s
                  @ reply_tabs s ((defTabConfigs s)(Some i \<mapsto> None)) []
                  @ (if wc_isDestroyed vi then [] else [Wc_destroy (view_id vi)])
                  @ [Emit (Ev_close_tab i)])
           \<and> (\<forall>n v. xs @ ys \<noteq> [] \<and> defCurrentViewId s' = Some n \<and> view_at s n = Some v \<longrightarrow>
                trace s' = trace s
                  @ [Win_removeBrowserView (view_id vi),
                     Win_addBrowserView (Some (view_id v)),
                     View_setBounds (view_id v) (content_bounds s)]
                  @ reply_active s n
                  @ [Win_send_fromMain n, Wc_focus (view_id v)]
                  @ reply_tabs s ((defTabConfigs s)(Some i \<mapsto> None)) (xs @ ys)
                  @ (if wc_isDestroyed vi then [] else [Wc_destroy (view_id vi)])
                  @ [Emit (Ev_close_tab i)])"
proof -
  have ix: "i \<notin> set xs" and iy: "i \<notin> set ys"
    using dist order by auto
  have rm: "filter (\<lambda>v. v \<noteq> i) (tabs s) = xs @ ys"
    using ix iy by (simp add: order filter_neq_removeAll)
  have idx: "indexOf (xs @ i # ys) i = int (length xs)"
    by (simp add: indexOf_first ix)
  have inz: "i \<noteq> 0"
    using live order by simp
  have vsi: "views s i = Some (Some vi)"
    using vi by (rule view_at_SomeD)
  have cvs: "currentView s = Some vi"
    using cur inz vsi by (rule currentView_live)
  have dt: "detach s = [Win_removeBrowserView (view_id vi)]"
    by (simp add: detach_def cvs)
  let ?next = "at_index (tabs s)
                 (if indexOf (tabs s) i = int (length (tabs s)) - 1
                  then indexOf (tabs s) i - 1 else indexOf (tabs s) i + 1)"
  have nxt: "?next = (case ys of y # _ \<Rightarrow> Some y
                      | [] \<Rightarrow> if xs = [] then None else Some (last xs))"
  proof (cases ys)
    case Nil
    then show ?thesis
      using at_index_before [of xs i] idx by (auto simp: order)
  next
    case (Cons y ys')
    then show ?thesis
      using at_index_after [of xs i ys] idx by (auto simp: order)
  qed
  have ct: "close_tab i s =
      (case setCurrentView ?next s of
         Inl e \<Rightarrow> Inl e
       | Inr s1 \<Rightarrow>
           Inr (log [Emit (Ev_close_tab i)]
                  (destroyView i
                     (set_tabConfigs ((defTabConfigs s1)(Some i \<mapsto> None))
                        (s1\<lparr>tabs := filter (\<lambda>v. v \<noteq> i) (tabs s1)\<rparr>)))))"
    using cur by (simp add: close_tab_def Let_def split: sum.split)
  show ?thesis
  proof (cases "?next")
    case None
    then have e: "xs = []" "ys = []"
      using nxt by (auto split: list.splits if_splits)
    have "setCurrentView ?next s = Inr s"
      using None by (simp add: setCurrentView_falsy truthy_id_def)
    then have r: "close_tab i s = Inr (log [Emit (Ev_close_tab i)]
                  (destroyView i
                     (set_tabConfigs ((defTabConfigs s)(Some i \<mapsto> None))
                        (s\<lparr>tabs := filter (\<lambda>v. v \<noteq> i) (tabs s)\<rparr>))))"
      using ct by simp
    show ?thesis
      unfolding r close_tab_rest
      using e cur rm vi
      by (simp add: currentView_def view_at_def truthy_id_def)
  next
    case (Some n)
    then have n: "n \<in> set (tabs s)"
      by (rule at_index_mem)
    then have nz: "n \<noteq> 0" and "view_at s n \<noteq> None"
      using live by auto
    then obtain v where va: "view_at s n = Some v"
      by auto
    then have v: "views s n = Some (Some v)"
      by (rule view_at_SomeD)
    have ni: "n \<noteq> i"
      using Some nxt ix iy by (auto split: list.splits if_splits)
    have ne: "xs @ ys \<noteq> []"
      using Some nxt by (auto split: list.splits if_splits)
    have nv: "(case ys of y # _ \<Rightarrow> Some y | [] \<Rightarrow> if xs = [] then Some i else Some (last xs)) = Some n"
      using Some nxt by (auto split: list.splits if_splits)
    let ?s1 = "log ([Win_removeBrowserView (view_id vi),
                     Win_addBrowserView (Some (view_id v)),
                     View_setBounds (view_id v) (content_bounds s)]
                    @ reply_active s n
                    @ [Win_send_fromMain n, Wc_focus (view_id v)])
                 (s\<lparr>defCurrentViewId := Some n\<rparr>)"
    have sw: "setCurrentView ?next s = Inr ?s1"
      using Some setCurrentView_live [OF nz v] by (simp add: dt)
    have r: "close_tab i s = Inr (log [Emit (Ev_close_tab i)]
                  (destroyView i
                     (set_tabConfigs ((defTabConfigs s)(Some i \<mapsto> None))
                        (?s1\<lparr>tabs := filter (\<lambda>v. v \<noteq> i) (tabs s)\<rparr>))))"
      unfolding ct sw by simp
    have vi1: "view_at ?s1 i = Some vi"
      using vi by (simp add: view_at_def)
    show ?thesis
      unfolding r nv close_tab_rest
      using ne rm nz va v ni vi1 vsi
      by (simp add: reply_tabs_def currentView_def truthy_id_def view_at_def)
  qed
qed

theorem close_active_tab_witness:
  "\<exists>s'. close_tab 2 example_two = Inr s' \<and> tabs s' = [1]
         \<and> defCurrentViewId s' = Some 1 \<and> currentView s' \<noteq> None
         \<and> trace s' = trace example_two
             @ [Win_removeBrowserView 2, Win_addBrowserView (Some 1),
                View_setBounds 1
                  \<lparr>bounds_height = 560, bounds_width = 800, bounds_x = 0, bounds_y = 40\<rparr>,
                Ipc_reply_active_update 1, Win_send_fromMain 1, Wc_focus 1,
                Ipc_reply_tabs_update ((defTabConfigs example_two)(Some 2 \<mapsto> None)) [1],
                Wc_destroy 2, Emit (Ev_close_tab 2)]"
proof -
  have cur: "defCurrentViewId example_two = Some 2"
    by (simp add: example_two_fields)
  have order: "tabs example_two = [1] @ 2 # []"
    by (simp add: example_two_fields)
  have dist: "distinct (tabs example_two)"
    by (simp add: example_two_fields)
  have live: "\<forall>j \<in> set (tabs example_two). j \<noteq> 0 \<and> view_at example_two j \<noteq> None"
    by (simp add: example_two_fields example_two_view_at)
  have vi: "view_at example_two 2 = Some (example_view 2)"
    by (simp add: example_two_view_at)
  have v1: "view_at example_two 1 = Some ((example_view 1)\<lparr>wc_MARKS := True\<rparr>)"
    by (simp add: example_two_view_at)
  have cb: "content_bounds example_two =
              \<lparr>bounds_height = 560, bounds_width = 800, bounds_x = 0, bounds_y = 40\<rparr>"
    by (simp add: content_bounds_def example_two_fields example_window_def example_options_def)
  from close_active_tab [OF cur order dist live vi] obtain s' where
    a: "close_tab 2 example_two = Inr s'" and b: "tabs s' = [1] @ []"
    and c: "defCurrentViewId s' = (case [] :: nat list of y # _ \<Rightarrow> Some y
                | [] \<Rightarrow> if [1::nat] = [] then Some 2 else Some (last [1]))"
    and d: "([1::nat] @ [] = [] \<longleftrightarrow> currentView s' = None)"
    and t: "\<forall>n v. [1::nat] @ [] \<noteq> [] \<and> defCurrentViewId s' = Some n
              \<and> view_at example_two n = Some v \<longrightarrow>
                trace s' = trace example_two
                  @ [Win_removeBrowserView (view_id (example_view 2)),
                     Win_addBrowserView (Some (view_id v)),
                     View_setBounds (view_id v) (content_bounds example_two)]
                  @ reply_active example_two n
                  @ [Win_send_fromMain n, Wc_focus (view_id v)]
                  @ reply_tabs example_two ((defTabConfigs example_two)(Some 2 \<mapsto> None)) ([1] @ [])
                  @ (if wc_isDestroyed (example_view 2) then [] else [Wc_destroy (view_id (example_view 2))])
                  @ [Emit (Ev_close_tab 2)]"
    by (elim exE conjE)
  from c have c': "defCurrentViewId s' = Some 1" by simp
  from t c' v1 have "trace s' = trace example_two
                  @ [Win_removeBrowserView (view_id (example_view 2)),
                     Win_addBrowserView (Some (view_id ((example_view 1)\<lparr>wc_MARKS := True\<rparr>))),
                     View_setBounds (view_id ((example_view 1)\<lparr>wc_MARKS := True\<rparr>)) (content_bounds example_two)]
                  @ reply_active example_two 1
                  @ [Win_send_fromMain 1, Wc_focus (view_id ((example_view 1)\<lparr>wc_MARKS := True\<rparr>))]
                  @ reply_tabs example_two ((defTabConfigs example_two)(Some 2 \<mapsto> None)) ([1] @ [])
                  @ (if wc_isDestroyed (example_view 2) then [] else [Wc_destroy (view_id (example_view 2))])
                  @ [Emit (Ev_close_tab 2)]"
    by simp
  then have t': "trace s' = trace example_two
             @ [Win_removeBrowserView 2, Win_addBrowserView (Some 1),
                View_setBounds 1
                  \<lparr>bounds_height = 560, bounds_width = 800, bounds_x = 0, bounds_y = 40\<rparr>,
                Ipc_reply_active_update 1, Win_send_fromMain 1, Wc_focus 1,
                Ipc_reply_tabs_update ((defTabConfigs example_two)(Some 2 \<mapsto> None)) [1],
                Wc_destroy 2, Emit (Ev_close_tab 2)]"
    by (simp add: cb reply_active_def reply_tabs_def example_two_fields example_view_functions
        example_view_def)
  from a b c' d t' show ?thesis by simp
qed

theorem close_only_tab_counterexample:
  "tabs example_ready = [1] \<and> defCurrentViewId example_ready = Some 1
   \<and> tabs (state_of (close_tab 1 example_ready)) = []
   \<and> defCurrentViewId (state_of (close_tab 1 example_ready)) = Some 1
   \<and> trace (state_of (close_tab 1 example_ready)) =
       trace example_ready
       @ [Ipc_reply_tabs_update ((defTabConfigs example_ready)(Some 1 \<mapsto> None)) [],
          Wc_destroy 1, Emit (Ev_close_tab 1)]"
proof -
  have "at_index [1::nat] (- 1) = None"
    by (simp add: at_index_def)
  then show ?thesis
    by (simp add: close_tab_def Let_def example_ready_fields setCurrentView_falsy truthy_id_def
        close_tab_rest state_of_def reply_tabs_def example_ready_view_at example_view_functions)
qed

lemma newTab_order:
  assumes "view_id view \<noteq> 0"
  shows "a \<noteq> 0 \<Longrightarrow> tabs s = xs @ a # ys \<Longrightarrow> a \<notin> set xs \<Longrightarrow>
           tabs (state_of (newTab url (Some a) view s)) = xs @ a # view_id view # ys"
    and "b = None \<or> b = Some 0 \<Longrightarrow>
           tabs (state_of (newTab url b view s)) = tabs s @ [view_id view]"
    and "a \<noteq> 0 \<Longrightarrow> a \<notin> set (tabs s) \<Longrightarrow>
           tabs (state_of (newTab url (Some a) view s)) = view_id view # tabs s"
  using assms
  by (auto simp: newTab_fields truthy_id_def splice_insert_after splice_insert_absent)

text \<open>
  Claim C3. With the tabs 1 and 2 open in this order, newTab with appendTo = 7, which is
  not a tab, puts the new id 3 at the front of the order, not at its end: indexOf gives
  -1 and the splice inserts at index 0.
\<close>

theorem newTab_absent_anchor:
  "tabs example_two = [1, 2]
   \<and> tabs (state_of (newTab (Some ''http://y.test'') (Some 7) (example_view 3) example_two))
       = [3, 1, 2]"
  by (simp add: newTab_fields example_two_fields truthy_id_def splice_insert_def)

subsection \<open>The registry invariant\<close>

lemma setCurrentView_fields:
  assumes "setCurrentView x s = Inr s1"
  shows "tabs s1 = tabs s" and "views s1 = views s" and "defTabConfigs s1 = defTabConfigs s"
    and "ipc s1 = ipc s"
proof -
  have "tabs s1 = tabs s \<and> views s1 = views s \<and> defTabConfigs s1 = defTabConfigs s
        \<and> ipc s1 = ipc s"
  proof (cases "truthy_id x")
    case False
    with assms show ?thesis by (simp add: setCurrentView_falsy)
  next
    case True
    then obtain i where x: "x = Some i" and nz: "i \<noteq> 0"
      by (auto simp: truthy_id_def split: option.splits)
    show ?thesis
    proof (cases "view_at s i")
      case None
      from setCurrentView_missing [OF nz None] assms x show ?thesis by simp
    next
      case (Some v)
      then have "views s i = Some (Some v)" by (rule view_at_SomeD)
      from setCurrentView_live [OF nz this] assms x show ?thesis by auto
    qed
  qed
  then show "tabs s1 = tabs s" and "views s1 = views s"
    and "defTabConfigs s1 = defTabConfigs s" and "ipc s1 = ipc s"
    by simp_all
qed

lemma setCurrentView_returns:
  assumes "\<forall>n. x = Some n \<and> n \<noteq> 0 \<longrightarrow> view_at s n \<noteq> None"
  shows "\<exists>s1. setCurrentView x s = Inr s1"
proof (cases "truthy_id x")
  case False
  then show ?thesis by (simp add: setCurrentView_falsy)
next
  case True
  then obtain i where x: "x = Some i" and nz: "i \<noteq> 0"
    by (auto simp: truthy_id_def split: option.splits)
  with assms obtain v where "view_at s i = Some v" by auto
  then have "views s i = Some (Some v)" by (rule view_at_SomeD)
  from setCurrentView_live [OF nz this] x show ?thesis by simp
qed

lemma close_tab_after_switch:
  assumes "(if Some i = defCurrentViewId s
            then let removeIndex = indexOf (tabs s) i;
                     nextIndex = (if removeIndex = int (length (tabs s)) - 1
                                  then removeIndex - 1 else removeIndex + 1)
                 in setCurrentView (at_index (tabs s) nextIndex) s
            else Inr s) = Inr s1"
  shows "close_tab i s =
     Inr (log (reply_tabs s1 ((defTabConfigs s1)(Some i \<mapsto> None)) (removeAll i (tabs s1))
               @ (case view_at s1 i of
                    Some v \<Rightarrow> if wc_isDestroyed v then [] else [Wc_destroy (view_id v)]
                  | None \<Rightarrow> [])
               @ [Emit (Ev_close_tab i)])
            (s1\<lparr>tabs := removeAll i (tabs s1),
                defTabConfigs := (defTabConfigs s1)(Some i \<mapsto> None),
                views := (if view_at s1 i = None then views s1 else (views s1)(i \<mapsto> None))\<rparr>))"
  unfolding close_tab_def assms
  by (simp add: Let_def close_tab_rest filter_neq_removeAll)

lemma close_tab_registry:
  assumes live: "\<forall>j \<in> set (tabs s). j \<noteq> 0 \<and> view_at s j \<noteq> None"
  shows "\<exists>s'. close_tab i s = Inr s'
           \<and> tabs s' = removeAll i (tabs s)
           \<and> defTabConfigs s' = (defTabConfigs s)(Some i \<mapsto> None)
           \<and> (\<forall>j. view_at s' j = (if j = i then None else view_at s j))"
proof -
  let ?sw = "if Some i = defCurrentViewId s
            then let removeIndex = indexOf (tabs s) i;
                     nextIndex = (if removeIndex = int (length (tabs s)) - 1
                                  then removeIndex - 1 else removeIndex + 1)
                 in setCurrentView (at_index (tabs s) nextIndex) s
            else Inr s"
  have "\<exists>s1. ?sw = Inr s1 \<and> tabs s1 = tabs s \<and> views s1 = views s
              \<and> defTabConfigs s1 = defTabConfigs s"
  proof (cases "Some i = defCurrentViewId s")
    case False
    then show ?thesis by simp
  next
    case True
    let ?x = "at_index (tabs s)
                (if indexOf (tabs s) i = int (length (tabs s)) - 1
                 then indexOf (tabs s) i - 1 else indexOf (tabs s) i + 1)"
    have "\<forall>n. ?x = Some n \<and> n \<noteq> 0 \<longrightarrow> view_at s n \<noteq> None"
      using live at_index_mem by fastforce
    from setCurrentView_returns [OF this] obtain s1 where s1: "setCurrentView ?x s = Inr s1"
      by blast
    from setCurrentView_fields [OF s1] s1 True show ?thesis
      by (simp add: Let_def)
  qed
  then obtain s1 where sw: "?sw = Inr s1" and f: "tabs s1 = tabs s" "views s1 = views s"
      "defTabConfigs s1 = defTabConfigs s"
    by blast
  have va: "view_at s1 = view_at s"
    using f(2) by (simp add: fun_eq_iff view_at_cong)
  show ?thesis
    unfolding close_tab_after_switch [OF sw]
    by (simp add: f va view_at_def)
qed

lemma registry_ok_constructor: "registry_ok (constructor opts w)"
  by (simp add: registry_ok_def constructor_def view_at_def)

lemma registry_ok_live:
  "registry_ok s \<Longrightarrow> \<forall>j \<in> set (tabs s). j \<noteq> 0 \<and> view_at s j \<noteq> None"
  by (auto simp: registry_ok_def)

lemma registry_ok_close_tab:
  assumes "registry_ok s"
  shows "registry_ok (state_of (close_tab i s))"
proof -
  from close_tab_registry [OF registry_ok_live [OF assms], of i]
  obtain s' where r: "close_tab i s = Inr s'"
    and t: "tabs s' = removeAll i (tabs s)"
    and c: "defTabConfigs s' = (defTabConfigs s)(Some i \<mapsto> None)"
    and v: "\<forall>j. view_at s' j = (if j = i then None else view_at s j)"
    by blast
  have "registry_ok s'"
    using assms unfolding registry_ok_def t c
    by (auto simp: v distinct_removeAll)
  then show ?thesis by (simp add: r state_of_def)
qed

lemma set_splice_insert: "set (splice_insert k a xs) = insert a (set xs)"
proof -
  have "set (take (nat k) xs) \<union> set (drop (nat k) xs) = set xs"
    by (metis append_take_drop_id set_append)
  then show ?thesis by (auto simp: splice_insert_def)
qed

lemma distinct_splice_insert:
  assumes d: "distinct xs" and a: "a \<notin> set xs"
  shows "distinct (splice_insert k a xs)"
proof -
  have "set (take (nat k) xs) \<inter> set (drop (nat k) xs) = {}"
    using d by (simp add: set_take_disj_set_drop_if_distinct)
  moreover have "a \<notin> set (take (nat k) xs)" "a \<notin> set (drop (nat k) xs)"
    using a by (auto dest: in_set_takeD in_set_dropD)
  ultimately show ?thesis
    using d by (auto simp: splice_insert_def)
qed

lemma registry_ok_newTab:
  assumes ok: "registry_ok s" and nz: "view_id view \<noteq> 0" and fresh: "views s (view_id view) = None"
  shows "registry_ok (state_of (newTab url a view s))"
proof -
  have "view_at s (view_id view) = None"
    using fresh by (simp add: view_at_def)
  then have new: "view_id view \<notin> set (tabs s)"
    using ok by (auto simp: registry_ok_def)
  show ?thesis
    using ok new nz unfolding registry_ok_def
    by (auto simp: newTab_fields [OF nz] newTab_view_at [OF nz] newTab_confs [OF nz]
        set_splice_insert distinct_splice_insert)
qed

lemma registry_ok_run:
  "registry_ok s \<Longrightarrow> host_ids_fresh ops s \<Longrightarrow> registry_ok (run ops s)"
proof (induction ops arbitrary: s)
  case Nil
  then show ?case by simp
next
  case (Cons x ops)
  show ?case
  proof (cases x)
    case (OpenTab url a view)
    with Cons.prems have "registry_ok (apply_op x s)" "host_ids_fresh ops (apply_op x s)"
      by (simp_all add: registry_ok_newTab)
    then show ?thesis using Cons.IH by simp
  next
    case (CloseTab i)
    with Cons.prems have "registry_ok (apply_op x s)" "host_ids_fresh ops (apply_op x s)"
      by (simp_all add: registry_ok_close_tab)
    then show ?thesis using Cons.IH by simp
  qed
qed

lemma newTab_views:
  assumes nz: "view_id view \<noteq> 0"
  shows "views (state_of (newTab url a view s)) =
           (views s)(view_id view \<mapsto>
              Some (if truthy_str (if truthy_str url then url else blankPage (options s))
                    then view\<lparr>wc_MARKS := True\<rparr> else view))"
proof -
  have cv: "currentView (t\<lparr>views := (views s)(view_id view \<mapsto> Some view),
                            defCurrentViewId := Some (view_id view)\<rparr>) = Some view" for t
    using nz by (simp add: currentView_live)
  have e: "view\<lparr>wc_MARKS := True\<rparr> = view" if "wc_MARKS view"
    using that by simp
  show ?thesis
    using e
    by (auto simp: newTab_unfold [OF nz] Let_def state_of_def loadURL_views
        currentView_cong [of _ "s\<lparr>views := (views s)(view_id view \<mapsto> Some view),
                            defCurrentViewId := Some (view_id view)\<rparr>"] cv)
qed

lemma tabs_apply_op:
  assumes "registry_ok s" and "host_ids_fresh (x # ops) s"
  shows "set (tabs (apply_op x s)) = spec_open_ids [x] (set (tabs s))"
proof (cases x)
  case (OpenTab url a view)
  with assms(2) have nz: "view_id view \<noteq> 0" by simp
  show ?thesis
    by (simp add: OpenTab newTab_fields [OF nz] set_splice_insert)
next
  case (CloseTab i)
  from close_tab_registry [OF registry_ok_live [OF assms(1)], of i]
  obtain s' where "close_tab i s = Inr s'" and "tabs s' = removeAll i (tabs s)"
    by blast
  then show ?thesis
    by (simp add: CloseTab state_of_def)
qed

lemma registry_ok_apply_op:
  assumes "registry_ok s" and "host_ids_fresh (x # ops) s"
  shows "registry_ok (apply_op x s)"
proof (cases x)
  case (OpenTab url a view)
  with assms show ?thesis by (simp add: registry_ok_newTab)
next
  case (CloseTab i)
  with assms show ?thesis by (simp add: registry_ok_close_tab)
qed

lemma host_ids_fresh_tail:
  "host_ids_fresh (x # ops) s \<Longrightarrow> host_ids_fresh ops (apply_op x s)"
  by (cases x) simp_all

lemma spec_open_ids_step:
  "spec_open_ids (x # ops) opened = spec_open_ids ops (spec_open_ids [x] opened)"
  by (cases x) simp_all

lemma tabs_run:
  "registry_ok s \<Longrightarrow> host_ids_fresh ops s \<Longrightarrow>
   set (tabs (run ops s)) = spec_open_ids ops (set (tabs s))"
proof (induction ops arbitrary: s)
  case Nil
  then show ?case by simp
next
  case (Cons x ops)
  have "set (tabs (run ops (apply_op x s))) = spec_open_ids ops (set (tabs (apply_op x s)))"
    using Cons.prems by (intro Cons.IH registry_ok_apply_op host_ids_fresh_tail)
  also have "set (tabs (apply_op x s)) = spec_open_ids [x] (set (tabs s))"
    using Cons.prems by (rule tabs_apply_op)
  finally show ?case
    by (simp add: spec_open_ids_step [of x ops])
qed

text \<open>
  Claim C2. Start from the object the constructor builds, with the control panel ready or
  not, and run any finite sequence of newTab calls and close-tab messages in which the
  host gives every new view a positive id it has not used before. Afterwards the order
  has no duplicates; it holds exactly the ids of the tabs that the sequence opened and
  has not closed since; and these are exactly the ids whose configuration in tabConfigs
  is an object (not missing, not null), and exactly the ids that have a view.
\<close>

theorem registry_order_invariant:
  assumes "host_ids_fresh ops ((constructor opts w)\<lparr>ipc := e\<rparr>)"
  shows "distinct (tabs (run ops ((constructor opts w)\<lparr>ipc := e\<rparr>)))
         \<and> set (tabs (run ops ((constructor opts w)\<lparr>ipc := e\<rparr>))) = spec_open_ids ops {}
         \<and> set (tabs (run ops ((constructor opts w)\<lparr>ipc := e\<rparr>)))
             = {i. \<exists>t. defTabConfigs (run ops ((constructor opts w)\<lparr>ipc := e\<rparr>)) (Some i)
                         = Some (Some t)}
         \<and> set (tabs (run ops ((constructor opts w)\<lparr>ipc := e\<rparr>)))
             = {i. view_at (run ops ((constructor opts w)\<lparr>ipc := e\<rparr>)) i \<noteq> None}"
proof -
  have ok0: "registry_ok ((constructor opts w)\<lparr>ipc := e\<rparr>)"
    by (simp add: registry_ok_def constructor_def view_at_def)
  then have "registry_ok (run ops ((constructor opts w)\<lparr>ipc := e\<rparr>))"
    using assms by (rule registry_ok_run)
  moreover have "set (tabs (run ops ((constructor opts w)\<lparr>ipc := e\<rparr>))) = spec_open_ids ops {}"
    using tabs_run [OF ok0 assms] by (simp add: constructor_def)
  ultimately show ?thesis
    unfolding registry_ok_def by blast
qed

theorem registry_order_invariant_witness:
  "host_ids_fresh
     [OpenTab (Some ''http://x.test'') None (example_view 1),
      OpenTab None (Some 1) (example_view 2), CloseTab 1]
     ((constructor example_options example_window)\<lparr>ipc := Some \<lparr>sender = 100\<rparr>\<rparr>)
   \<and> distinct (tabs (run
        [OpenTab (Some ''http://x.test'') None (example_view 1),
         OpenTab None (Some 1) (example_view 2), CloseTab 1]
        ((constructor example_options example_window)\<lparr>ipc := Some \<lparr>sender = 100\<rparr>\<rparr>)))
   \<and> set (tabs (run
        [OpenTab (Some ''http://x.test'') None (example_view 1),
         OpenTab None (Some 1) (example_view 2), CloseTab 1]
        ((constructor example_options example_window)\<lparr>ipc := Some \<lparr>sender = 100\<rparr>\<rparr>)))
       = {2}
   \<and> {i. \<exists>t. defTabConfigs (run
                [OpenTab (Some ''http://x.test'') None (example_view 1),
                 OpenTab None (Some 1) (example_view 2), CloseTab 1]
                ((constructor example_options example_window)\<lparr>ipc := Some \<lparr>sender = 100\<rparr>\<rparr>))
              (Some i) = Some (Some t)} = {2}"
proof -
  have h: "host_ids_fresh
     [OpenTab (Some ''http://x.test'') None (example_view 1),
      OpenTab None (Some 1) (example_view 2), CloseTab 1]
     ((constructor example_options example_window)\<lparr>ipc := Some \<lparr>sender = 100\<rparr>\<rparr>)"
    by (simp add: newTab_views constructor_def)
  have o: "spec_open_ids
     [OpenTab (Some ''http://x.test'') None (example_view 1),
      OpenTab None (Some 1) (example_view 2), CloseTab 1] {} = {2}"
    by auto
  from registry_order_invariant [OF h] h show ?thesis
    unfolding o by blast
qed

end
